theory Spec2Isabelle
  imports Complex_Main "HOL-Library.Multiset" "HOL-Library.AList"
begin

section \<open>Exceptions, paths and configuration\<close>

text \<open>
  The scripts never catch an exception, so a raise anywhere aborts the run. The model
  returns \<open>Inl e\<close> where the Python raises. \<open>OSError\<close> stands for the whole family the
  file-system calls raise (FileNotFoundError, NotADirectoryError, IsADirectoryError,
  FileExistsError, shutil.SameFileError, shutil.Error: all subclasses of OSError).
\<close>

datatype exn = ValueError | ZeroDivisionError | OSError

text \<open>
  A path is the list of its components, so \<open>os.path.join(a, b)\<close> is \<open>a @ [b]\<close> and
  \<open>os.path.basename p\<close> is \<open>last p\<close>.
\<close>

type_synonym path = "string list"

text \<open>
  The CONFIG block of \<open>prepare_and_split.py\<close> (lines 10-17). The functions of the script
  read these module-level constants; the model passes them as a record. The three ratios
  are Python floats; they are modelled as exact rationals (for 0.8, 0.1 and 0.5 and any
  list length below \<open>2^50\<close> the floating-point floor and ceiling agree with the exact
  ones). \<open>VERBOSE\<close> only changes what is printed and is left out.
\<close>

record config =
  RAW_ROOT :: path
  OUT_ROOT :: path
  RANDOM_SEED :: int
  TRAIN_RATIO :: rat
  VAL_RATIO :: rat
  TEST_RATIO :: rat
  COPY_FILES :: bool

definition CONFIG :: config where
  "CONFIG = \<lparr> RAW_ROOT = [''N:'', ''ROV'', ''archive (1)'', ''hagrid-classification-512p-127k''],
              OUT_ROOT = [''N:'', ''ROV'', ''data''],
              RANDOM_SEED = 42,
              TRAIN_RATIO = 4 / 5,
              VAL_RATIO = 1 / 10,
              TEST_RATIO = 1 / 10,
              COPY_FILES = True \<rparr>"

section \<open>The library call \<open>train_test_split\<close>\<close>

text \<open>
  \<open>sklearn.model_selection.train_test_split\<close> is a library function. Its model follows the
  library: \<open>_validate_shuffle_split\<close> turns the two size arguments (here always floats or
  None) into the absolute counts \<open>n_train\<close> and \<open>n_test\<close>, raising ValueError for a
  fraction outside the open interval (0, 1), for fractions adding up to more than 1, and
  when the resulting train set would be empty; then a permutation of the indices is drawn
  from \<open>RandomState(random_state)\<close>, its first \<open>n_test\<close> entries index the test part and
  the next \<open>n_train\<close> entries the train part.
\<close>

definition validate_shuffle_split :: "nat \<Rightarrow> rat option \<Rightarrow> rat option \<Rightarrow> exn + (nat \<times> nat)" where
  "validate_shuffle_split n_samples test_size0 train_size =
    (let test_size = (if test_size0 = None \<and> train_size = None then Some (1 / 4) else test_size0) in
     if (case test_size of None \<Rightarrow> False | Some t \<Rightarrow> t \<le> 0 \<or> 1 \<le> t) then Inl ValueError
     else if (case train_size of None \<Rightarrow> False | Some t \<Rightarrow> t \<le> 0 \<or> 1 \<le> t) then Inl ValueError
     else if (case (train_size, test_size) of (Some a, Some b) \<Rightarrow> 1 < a + b | _ \<Rightarrow> False)
       then Inl ValueError
     else
       let n = int n_samples;
           n_test_f = (case test_size of None \<Rightarrow> 0 | Some t \<Rightarrow> \<lceil>t * of_int n\<rceil>);
           n_train_f = (case train_size of None \<Rightarrow> 0 | Some t \<Rightarrow> \<lfloor>t * of_int n\<rfloor>);
           n_train = (if train_size = None then n - n_test_f else n_train_f);
           n_test = (if train_size \<noteq> None \<and> test_size = None then n - n_train else n_test_f)
       in if n < n_train + n_test then Inl ValueError
          else if n_train = 0 then Inl ValueError
          else Inr (nat n_train, nat n_test))"

text \<open>
  The generator \<open>RandomState(seed).permutation n\<close> is a parameter of the model: a function
  from the seed and the length to the list of indices drawn. What the library promises of
  it is that the list is a permutation of \<open>0..<n\<close>.
\<close>

type_synonym shuffler = "int \<Rightarrow> nat \<Rightarrow> nat list"

definition is_permutation :: "nat list \<Rightarrow> nat \<Rightarrow> bool" where
  "is_permutation p n \<longleftrightarrow> mset p = mset [0..<n]"

definition train_test_split ::
    "'a list \<Rightarrow> rat option \<Rightarrow> rat option \<Rightarrow> (nat \<Rightarrow> nat list) \<Rightarrow> exn + ('a list \<times> 'a list)" where
  "train_test_split arr test_size train_size permutation =
    (case validate_shuffle_split (length arr) test_size train_size of
       Inl e \<Rightarrow> Inl e
     | Inr (n_train, n_test) \<Rightarrow>
         let p = permutation (length arr);
             ind_test = take n_test p;
             ind_train = take n_train (drop n_test p)
         in Inr (map (nth arr) ind_train, map (nth arr) ind_test))"

section \<open>The splitter: \<open>copy_split\<close>, lines 103-114\<close>

text \<open>
  The two calls of \<open>train_test_split\<close> that \<open>copy_split\<close> makes for a class with at least
  one file: first the train part against the rest, then the rest into validation and test.
  The second call's \<open>test_size\<close> is computed after the first call returned; the division
  raises ZeroDivisionError when the two ratios add up to zero. The result is
  \<open>(train_files, val_files, test_files)\<close>.
\<close>

definition split_class :: "config \<Rightarrow> shuffler \<Rightarrow> 'a list \<Rightarrow> exn + ('a list \<times> 'a list \<times> 'a list)" where
  "split_class cfg P files =
    (case train_test_split files None (Some (TRAIN_RATIO cfg)) (P (RANDOM_SEED cfg)) of
       Inl e \<Rightarrow> Inl e
     | Inr (train_files, temp) \<Rightarrow>
         if TEST_RATIO cfg + VAL_RATIO cfg = 0 then Inl ZeroDivisionError
         else
           (case train_test_split temp (Some (TEST_RATIO cfg / (TEST_RATIO cfg + VAL_RATIO cfg))) None
                   (P (RANDOM_SEED cfg)) of
              Inl e \<Rightarrow> Inl e
            | Inr (val_files, test_files) \<Rightarrow> Inr (train_files, val_files, test_files)))"

section \<open>Strings\<close>

text \<open>
  \<open>str.lower\<close> on ASCII letters (a \<open>string\<close> is a list of bytes), \<open>str.endswith\<close>,
  \<open>os.path.splitext\<close> on a base name, and a Python int as an f-string prints it.
\<close>

definition lower_char :: "char \<Rightarrow> char" where
  "lower_char c =
    (case map_of (zip ''ABCDEFGHIJKLMNOPQRSTUVWXYZ'' ''abcdefghijklmnopqrstuvwxyz'') c of
       Some d \<Rightarrow> d
     | None \<Rightarrow> c)"

definition lower :: "string \<Rightarrow> string" where
  "lower s = map lower_char s"

definition endswith :: "string \<Rightarrow> string \<Rightarrow> bool" where
  "endswith s suffix \<longleftrightarrow> length suffix \<le> length s \<and> drop (length s - length suffix) s = suffix"

definition is_image :: "string \<Rightarrow> bool" where
  "is_image f \<longleftrightarrow> endswith (lower f) ''.jpg'' \<or> endswith (lower f) ''.jpeg'' \<or> endswith (lower f) ''.png''"

text \<open>
  \<open>os.path.splitext\<close>: the extension starts at the last dot, unless every character before
  that dot is a dot too (a leading-dots name has no extension).
\<close>

definition splitext :: "string \<Rightarrow> string \<times> string" where
  "splitext p =
    (let dot_index = length p - length (takeWhile (\<lambda>c. c \<noteq> CHR ''.'') (rev p)) - 1 in
     if CHR ''.'' \<in> set p \<and> list_ex (\<lambda>c. c \<noteq> CHR ''.'') (take dot_index p)
     then (take dot_index p, drop dot_index p)
     else (p, []))"

definition digit_char :: "nat \<Rightarrow> char" where
  "digit_char d = ''0123456789'' ! d"

function str :: "int \<Rightarrow> string" where
  "str n =
    (if n < 0 then CHR ''-'' # str (- n)
     else if n < 10 then [digit_char (nat n)]
     else str (n div 10) @ [digit_char (nat (n mod 10))])"
  by pat_completeness auto
termination
  by (relation "measure (\<lambda>n. nat \<bar>n\<bar> + (if n < 0 then 1 else 0))") auto

declare str.simps [simp del]

section \<open>The file system\<close>

text \<open>
  The file system is an association list from paths to nodes, in listing order: what
  \<open>os.listdir\<close> returns for a directory is the names of its children in that order. A
  file carries its contents. The root \<open>[]\<close> is a directory.
\<close>

datatype node = Dir | File string

type_synonym fs = "(path \<times> node) list"

definition node_at :: "fs \<Rightarrow> path \<Rightarrow> node option" where
  "node_at fs p = (if p = [] then Some Dir else map_of fs p)"

definition path_exists :: "fs \<Rightarrow> path \<Rightarrow> bool" where
  "path_exists fs p \<longleftrightarrow> node_at fs p \<noteq> None"

definition isdir :: "fs \<Rightarrow> path \<Rightarrow> bool" where
  "isdir fs p \<longleftrightarrow> node_at fs p = Some Dir"

definition basename :: "path \<Rightarrow> string" where
  "basename p = (if p = [] then [] else last p)"

definition children :: "fs \<Rightarrow> path \<Rightarrow> string list" where
  "children fs d = map (\<lambda>(p, n). last p) (filter (\<lambda>(p, n). p \<noteq> [] \<and> butlast p = d) fs)"

definition listdir :: "fs \<Rightarrow> path \<Rightarrow> exn + string list" where
  "listdir fs d = (if isdir fs d then Inr (children fs d) else Inl OSError)"

text \<open>A loop whose body can raise: the first exception ends it.\<close>

fun for_each :: "('a \<Rightarrow> 's \<Rightarrow> exn + 's) \<Rightarrow> 'a list \<Rightarrow> 's \<Rightarrow> exn + 's" where
  "for_each body [] s = Inr s"
| "for_each body (x # xs) s = (case body x s of Inl e \<Rightarrow> Inl e | Inr s' \<Rightarrow> for_each body xs s')"

text \<open>
  \<open>Path.mkdir(parents=True, exist_ok=True)\<close>: an existing directory is left alone, an
  existing file raises FileExistsError, a missing parent is created first, and a parent
  that is a file raises NotADirectoryError.
\<close>

function mkdir :: "fs \<Rightarrow> path \<Rightarrow> exn + fs" where
  "mkdir fs p =
    (case node_at fs p of
       Some Dir \<Rightarrow> Inr fs
     | Some (File c) \<Rightarrow> Inl OSError
     | None \<Rightarrow>
         (case node_at fs (butlast p) of
            Some Dir \<Rightarrow> Inr (fs @ [(p, Dir)])
          | Some (File c) \<Rightarrow> Inl OSError
          | None \<Rightarrow>
              (case mkdir fs (butlast p) of
                 Inl e \<Rightarrow> Inl e
               | Inr fs' \<Rightarrow> Inr (fs' @ [(p, Dir)]))))"
  by pat_completeness auto
termination
  by (relation "measure (\<lambda>(fs, p). length p)") (auto simp: node_at_def split: if_splits)

declare mkdir.simps [simp del]

text \<open>
  \<open>shutil.copy2 src dst\<close>: a destination that is a directory means the file of the same
  base name inside it; the source must be a regular file other than the destination, the
  destination must not be a directory and its parent must be one. An existing destination
  file is replaced.
\<close>

definition copy2 :: "fs \<Rightarrow> path \<Rightarrow> path \<Rightarrow> exn + fs" where
  "copy2 fs src dst =
    (let real_dst = (if isdir fs dst then dst @ [basename src] else dst) in
     case node_at fs src of
       None \<Rightarrow> Inl OSError
     | Some Dir \<Rightarrow> Inl OSError
     | Some (File c) \<Rightarrow>
         if src = real_dst then Inl OSError
         else if isdir fs real_dst then Inl OSError
         else if \<not> isdir fs (butlast real_dst) then Inl OSError
         else Inr (AList.update real_dst (File c) fs))"

text \<open>
  \<open>shutil.move src dst\<close>: into a directory destination only under a name that is free
  there; a regular file replaces an existing destination file and is removed from its old
  place; a source directory is renamed with everything below it, which needs a free
  destination outside itself.
\<close>

definition move :: "fs \<Rightarrow> path \<Rightarrow> path \<Rightarrow> exn + fs" where
  "move fs src dst =
    (let real_dst = (if isdir fs dst then dst @ [basename src] else dst) in
     if isdir fs dst \<and> path_exists fs real_dst then Inl OSError
     else
       (case node_at fs src of
          None \<Rightarrow> Inl OSError
        | Some (File c) \<Rightarrow>
            if src = real_dst then Inr fs
            else if isdir fs real_dst then Inl OSError
            else if \<not> isdir fs (butlast real_dst) then Inl OSError
            else Inr (AList.update real_dst (File c) (AList.delete src fs))
        | Some Dir \<Rightarrow>
            if path_exists fs real_dst \<or> \<not> isdir fs (butlast real_dst)
               \<or> take (length src) real_dst = src
            then Inl OSError
            else Inr (map (\<lambda>(p, n). if take (length src) p = src
                                     then (real_dst @ drop (length src) p, n) else (p, n)) fs)))"

text \<open>\<open>os.remove\<close> removes a regular file and raises on anything else.\<close>

definition remove :: "fs \<Rightarrow> path \<Rightarrow> exn + fs" where
  "remove fs p =
    (case node_at fs p of
       Some (File c) \<Rightarrow> Inr (AList.delete p fs)
     | _ \<Rightarrow> Inl OSError)"

section \<open>\<open>prepare_and_split.py\<close>\<close>

subsection \<open>Label mapping and output directories (lines 21-36)\<close>

definition map_to_command :: "(string \<times> string) list" where
  "map_to_command =
    [(''like'', ''Forward''), (''fist'', ''Reverse''), (''palm'', ''Stop''),
     (''one'', ''Left''), (''peace'', ''Right'')]"

definition TARGET_CLASSES :: "string list" where
  "TARGET_CLASSES = [''Forward'', ''Reverse'', ''Stop'', ''Left'', ''Right'', ''Invalid'']"

text \<open>\<open>map_to_command.get(src.lower(), "Invalid")\<close>, line 58.\<close>

definition map_to_command_get :: "string \<Rightarrow> string" where
  "map_to_command_get src =
    (case map_of map_to_command (lower src) of Some cls \<Rightarrow> cls | None \<Rightarrow> ''Invalid'')"

definition SPLITS :: "string list" where
  "SPLITS = [''train'', ''val'', ''test'']"

definition ensure_dirs :: "path \<Rightarrow> fs \<Rightarrow> exn + fs" where
  "ensure_dirs base fs =
    for_each (\<lambda>split. for_each (\<lambda>cls fs. mkdir fs (base @ [split, cls])) TARGET_CLASSES) SPLITS fs"

subsection \<open>\<open>collect_images_per_class\<close> (lines 38-82)\<close>

text \<open>
  \<open>entries\<close> is a Python dict, which keeps insertion order: an association list from the
  class name to the list of source paths.
\<close>

type_synonym entries = "(string \<times> path list) list"

definition setdefault :: "string \<Rightarrow> entries \<Rightarrow> entries" where
  "setdefault k entries = (if k \<in> set (map fst entries) then entries else entries @ [(k, [])])"

definition append_to :: "string \<Rightarrow> path \<Rightarrow> entries \<Rightarrow> entries" where
  "append_to k v entries = map (\<lambda>(k', vs). if k' = k then (k', vs @ [v]) else (k', vs)) entries"

definition scan_dir :: "fs \<Rightarrow> path \<Rightarrow> string \<Rightarrow> entries \<Rightarrow> exn + entries" where
  "scan_dir fs raw_root src entries =
    (let src_path = raw_root @ [src];
         mapped = map_to_command_get src;
         entries1 = setdefault mapped entries
     in case listdir fs src_path of
          Inl e \<Rightarrow> Inl e
        | Inr names \<Rightarrow>
            Inr (foldl (\<lambda>en fname. append_to mapped (src_path @ [fname]) en) entries1
                   (filter is_image names)))"

definition collect_images_per_class :: "fs \<Rightarrow> path \<Rightarrow> exn + entries" where
  "collect_images_per_class fs raw_root =
    (if \<not> path_exists fs raw_root then Inr []
     else
       (case listdir fs raw_root of
          Inl e \<Rightarrow> Inl e
        | Inr names \<Rightarrow>
            for_each (scan_dir fs raw_root) (filter (\<lambda>d. isdir fs (raw_root @ [d])) names) []))"

subsection \<open>\<open>verify_output\<close> (lines 171-203)\<close>

definition verify_output :: "path \<Rightarrow> fs \<Rightarrow> exn + nat" where
  "verify_output out_root fs =
    for_each
      (\<lambda>split total_files.
         if \<not> path_exists fs (out_root @ [split]) then Inr total_files
         else
           for_each
             (\<lambda>cls total_files.
                if path_exists fs (out_root @ [split, cls]) then
                  (case listdir fs (out_root @ [split, cls]) of
                     Inl e \<Rightarrow> Inl e
                   | Inr names \<Rightarrow> Inr (total_files + length (filter is_image names)))
                else Inr total_files)
             TARGET_CLASSES total_files)
      SPLITS 0"

subsection \<open>\<open>copy_split\<close> (lines 84-169)\<close>

text \<open>
  The state the loops of \<open>copy_split\<close> change: the file system, the module \<open>random\<close>'s
  global generator, and the counter \<open>total_copied\<close>. The generator is the stream of the
  values its coming \<open>randint(0, 99999)\<close> calls return; \<open>random.seed s\<close> replaces it by the
  stream \<open>S s\<close>, a parameter of the model like the shuffler.
\<close>

type_synonym rng = "nat \<Rightarrow> int"

type_synonym seeder = "int \<Rightarrow> rng"

record copy_state =
  disk :: fs
  random_state :: rng
  total_copied :: nat

text \<open>Lines 134-139: the destination of one file, and the generator after choosing it.\<close>

definition destination :: "fs \<Rightarrow> rng \<Rightarrow> path \<Rightarrow> path \<Rightarrow> path \<times> rng" where
  "destination fs g dest_dir src_file =
    (let dst = dest_dir @ [basename src_file] in
     if path_exists fs dst then
       (case splitext (basename src_file) of
          (base_name, ext) \<Rightarrow> (dest_dir @ [base_name @ ''_'' @ str (g 0) @ ext], g \<circ> Suc))
     else (dst, g))"

text \<open>Lines 134-148: the body of the innermost loop.\<close>

definition copy_file :: "config \<Rightarrow> path \<Rightarrow> path \<Rightarrow> copy_state \<Rightarrow> exn + copy_state" where
  "copy_file cfg dest_dir src_file st =
    (case destination (disk st) (random_state st) dest_dir src_file of
       (dst, g) \<Rightarrow>
         (case (if COPY_FILES cfg then copy2 (disk st) src_file dst else move (disk st) src_file dst) of
            Inl e \<Rightarrow> Inl e
          | Inr fs' \<Rightarrow> Inr \<lparr> disk = fs', random_state = g, total_copied = total_copied st + 1 \<rparr>))"

text \<open>
  Lines 95-120: the \<open>splits\<close> dict of a class, in its insertion order. A class with no
  file is skipped (\<open>continue\<close>) before anything is split: it has no split to process.
\<close>

definition class_splits :: "config \<Rightarrow> shuffler \<Rightarrow> 'a list \<Rightarrow> exn + (string \<times> 'a list) list" where
  "class_splits cfg P files =
    (if length files = 0 then Inr []
     else
       (case split_class cfg P files of
          Inl e \<Rightarrow> Inl e
        | Inr (train_files, val_files, test_files) \<Rightarrow>
            Inr [(''train'', train_files), (''val'', val_files), (''test'', test_files)]))"

text \<open>Lines 95-160: the body of the loop over the classes.\<close>

definition copy_class :: "config \<Rightarrow> shuffler \<Rightarrow> path \<Rightarrow> string \<times> path list \<Rightarrow> copy_state \<Rightarrow> exn + copy_state" where
  "copy_class cfg P out_root entry st =
    (case entry of
       (cls, files) \<Rightarrow>
         (case class_splits cfg P files of
            Inl e \<Rightarrow> Inl e
          | Inr splits \<Rightarrow>
              for_each
                (\<lambda>(split_name, file_list). for_each (copy_file cfg (out_root @ [split_name, cls])) file_list)
                splits st))"

text \<open>
  What a completed \<open>copy_split\<close> leaves and prints: the file system, the two numbers of
  the line "Successfully processed total_copied/total_to_copy images", and the total that
  \<open>verify_output\<close> counts on disk and prints (its return value is dropped by the caller).
\<close>

record report =
  final_disk :: fs
  copied :: nat
  to_copy :: nat
  verified :: nat

definition copy_split :: "config \<Rightarrow> shuffler \<Rightarrow> seeder \<Rightarrow> rng \<Rightarrow> entries \<Rightarrow> path \<Rightarrow> fs \<Rightarrow> exn + report" where
  "copy_split cfg P S g0 entries out_root fs =
    (let st0 = \<lparr> disk = fs, random_state = S (RANDOM_SEED cfg), total_copied = 0 \<rparr>;
         total_to_copy = sum_list (map (\<lambda>(cls, files). length files) entries)
     in case for_each (copy_class cfg P out_root) entries st0 of
          Inl e \<Rightarrow> Inl e
        | Inr st \<Rightarrow>
            (case verify_output out_root (disk st) of
               Inl e \<Rightarrow> Inl e
             | Inr total_files \<Rightarrow>
                 Inr \<lparr> final_disk = disk st, copied = total_copied st, to_copy = total_to_copy,
                       verified = total_files \<rparr>))"

subsection \<open>\<open>check_source_directory\<close> and the main block (lines 205-273)\<close>

definition check_source_directory :: "config \<Rightarrow> fs \<Rightarrow> exn + bool" where
  "check_source_directory cfg fs =
    (if \<not> path_exists fs (RAW_ROOT cfg) then Inr False
     else
       (case listdir fs (RAW_ROOT cfg) of
          Inl e \<Rightarrow> Inl e
        | Inr names \<Rightarrow>
            if filter (\<lambda>d. isdir fs (RAW_ROOT cfg @ [d])) names = [] then Inr False
            else Inr True))"

text \<open>
  How a run of the script ends: \<open>exit(code)\<close>, an uncaught exception, or the last line
  "[COMPLETE] Dataset prepared successfully".
\<close>

datatype outcome = Exit nat | Raised exn | Complete report

definition main :: "config \<Rightarrow> shuffler \<Rightarrow> seeder \<Rightarrow> rng \<Rightarrow> string \<Rightarrow> fs \<Rightarrow> outcome" where
  "main cfg P S g0 response fs =
    (case check_source_directory cfg fs of
       Inl e \<Rightarrow> Raised e
     | Inr False \<Rightarrow> Exit 1
     | Inr True \<Rightarrow>
         if lower response \<noteq> ''y'' then Exit 0
         else
           (case ensure_dirs (OUT_ROOT cfg) fs of
              Inl e \<Rightarrow> Raised e
            | Inr fs1 \<Rightarrow>
                (case collect_images_per_class fs1 (RAW_ROOT cfg) of
                   Inl e \<Rightarrow> Raised e
                 | Inr entries \<Rightarrow>
                     if entries = [] then Exit 1
                     else
                       (case copy_split cfg P S g0 entries (OUT_ROOT cfg) fs1 of
                          Inl e \<Rightarrow> Raised e
                        | Inr r \<Rightarrow> Complete r))))"

section \<open>\<open>fix_invalid_train.py\<close> and \<open>fix_invalid_val.py\<close>\<close>

text \<open>
  The two scripts differ in \<open>folder\<close> and \<open>max_images\<close> only. \<open>random.sample(files, k)\<close>
  draws from the global generator, which nothing in the scripts seeds; the positions it
  picks are the parameter \<open>sample\<close> (given the length of the list and \<open>k\<close>). What the
  library promises of them is that they are \<open>k\<close> different positions of the list. The
  result is the file system left and the two counts printed, "Before" and "After".
\<close>

definition valid_sample :: "nat list \<Rightarrow> nat \<Rightarrow> nat \<Rightarrow> bool" where
  "valid_sample picks n k \<longleftrightarrow> length picks = k \<and> distinct picks \<and> list_all (\<lambda>i. i < n) picks"

definition fix_invalid :: "path \<Rightarrow> nat \<Rightarrow> (nat \<Rightarrow> nat \<Rightarrow> nat list) \<Rightarrow> fs \<Rightarrow> exn + (fs \<times> nat \<times> nat)" where
  "fix_invalid folder max_images sample fs =
    (case listdir fs folder of
       Inl e \<Rightarrow> Inl e
     | Inr files \<Rightarrow>
         (case (if max_images < length files
                then for_each (\<lambda>f fs. remove fs (folder @ [f]))
                       (map (nth files) (sample (length files) (length files - max_images))) fs
                else Inr fs) of
            Inl e \<Rightarrow> Inl e
          | Inr fs' \<Rightarrow>
              (case listdir fs' folder of
                 Inl e \<Rightarrow> Inl e
               | Inr files' \<Rightarrow> Inr (fs', length files, length files'))))"

definition fix_invalid_train :: "(nat \<Rightarrow> nat \<Rightarrow> nat list) \<Rightarrow> fs \<Rightarrow> exn + (fs \<times> nat \<times> nat)" where
  "fix_invalid_train = fix_invalid [''..'', ''data'', ''train'', ''Invalid''] 6000"

definition fix_invalid_val :: "(nat \<Rightarrow> nat \<Rightarrow> nat list) \<Rightarrow> fs \<Rightarrow> exn + (fs \<times> nat \<times> nat)" where
  "fix_invalid_val = fix_invalid [''..'', ''data'', ''val'', ''Invalid''] 1000"

section \<open>Generators and listings for the examples\<close>

text \<open>
  The generators are parameters of the model; the examples run it on two shufflers (the
  indices in ascending and in descending order), on a generator whose every draw is 7, and
  on listings of numbered image files.
\<close>

definition ascending :: shuffler where
  "ascending seed n = [0..<n]"

definition descending :: shuffler where
  "descending seed n = rev [0..<n]"

definition always_seven :: seeder where
  "always_seven seed k = 7"

definition unseeded :: rng where
  "unseeded k = int k"

definition numbered_images :: "path \<Rightarrow> nat \<Rightarrow> path list" where
  "numbered_images folder n = map (\<lambda>i. folder @ [str (int i) @ ''.jpg'']) [0..<n]"

text \<open>
  A raw tree: the root, its label directories in listing order, and in each the named
  files, each holding its own "label/name" as contents.
\<close>

definition raw_listing :: "path \<Rightarrow> (string \<times> string list) list \<Rightarrow> fs" where
  "raw_listing base dirs =
    (base, Dir) #
    concat (map (\<lambda>(d, names). (base @ [d], Dir) # map (\<lambda>f. (base @ [d, f], File (d @ ''/'' @ f))) names) dirs)"

text \<open>
  The three numbers a completed run prints: \<open>total_to_copy\<close>, \<open>total_copied\<close> and the
  total \<open>verify_output\<close> counts on disk.
\<close>

definition printed_counts :: "outcome \<Rightarrow> (nat \<times> nat \<times> nat) option" where
  "printed_counts out =
    (case out of Complete r \<Rightarrow> Some (to_copy r, copied r, verified r) | _ \<Rightarrow> None)"







text \<open>
  What the real generators return for the seed 42: the first eight values of
  \<open>random.randint(0, 99999)\<close> after \<open>random.seed(42)\<close>, and
  \<open>RandomState(42).permutation n\<close> for the lengths 2, 6 and 10. At other lengths and later
  draws, which no example reaches, the two definitions fall back to the indices in
  order and to 0.
\<close>

definition python_seed_42 :: seeder where
  "python_seed_42 seed k =
    (if k < 8 then [83810, 14592, 3278, 97196, 36048, 32098, 29256, 18289] ! k else 0)"

definition numpy_seed_42 :: shuffler where
  "numpy_seed_42 seed n =
    (if n = 10 then [8, 1, 5, 0, 7, 2, 9, 4, 3, 6]
     else if n = 6 then [0, 1, 5, 2, 4, 3]
     else if n = 2 then [1, 0]
     else [0..<n])"

text \<open>
  A raw tree whose two label directories both map to Invalid. The bucket lists ten files:
  two named a.jpg (positions 2 and 7) and, between them (position 5), one named
  a_83810.jpg.
\<close>

definition shared_names_tree :: fs where
  "shared_names_tree =
    raw_listing (RAW_ROOT CONFIG)
      [(''call'', [''c0.jpg'', ''c1.jpg'', ''a.jpg'', ''c3.jpg'', ''c4.jpg'', ''a_83810.jpg'', ''c6.jpg'']),
       (''dislike'', [''a.jpg'', ''d8.jpg'', ''d9.jpg''])]"

section \<open>What the seed fixes\<close>

text \<open>
  Two states of the copy loops agree up to \<open>m\<close> draws when they hold the same file system
  and counter and their generators return the same next \<open>m\<close> values.
\<close>

definition agree :: "nat \<Rightarrow> copy_state \<Rightarrow> copy_state \<Rightarrow> bool" where
  "agree m st st' \<longleftrightarrow>
     disk st = disk st' \<and> total_copied st = total_copied st'
     \<and> (\<forall>k<m. random_state st k = random_state st' k)"

text \<open>
  Generators that agree with \<open>numpy_seed_42\<close> and \<open>python_seed_42\<close> at the seed 42, the
  second for the first six draws only, and differ from them everywhere else; and a bucket
  of six files, two of them named a.jpg, with a tree that holds them and the three
  destination directories of the class.
\<close>

definition numpy_seed_42_only :: shuffler where
  "numpy_seed_42_only seed n = (if seed = 42 then numpy_seed_42 seed n else rev [0..<n])"

definition python_first_six :: seeder where
  "python_first_six seed k = (if seed = 42 \<and> k < 6 then python_seed_42 seed k else 1)"

definition six_entries :: entries where
  "six_entries =
    [(''Invalid'',
      [RAW_ROOT CONFIG @ [''call'', ''x0.jpg''], RAW_ROOT CONFIG @ [''call'', ''x1.jpg''],
       RAW_ROOT CONFIG @ [''call'', ''a.jpg''], RAW_ROOT CONFIG @ [''dislike'', ''y3.jpg''],
       RAW_ROOT CONFIG @ [''dislike'', ''y4.jpg''], RAW_ROOT CONFIG @ [''dislike'', ''a.jpg'']])]"

definition six_tree :: fs where
  "six_tree =
    raw_listing (RAW_ROOT CONFIG)
      [(''call'', [''x0.jpg'', ''x1.jpg'', ''a.jpg'']), (''dislike'', [''y3.jpg'', ''y4.jpg'', ''a.jpg''])]
    @ map (\<lambda>split. (OUT_ROOT CONFIG @ [split, ''Invalid''], Dir)) SPLITS"

text \<open>
  The directory \<open>fix_invalid_val.py\<close> works on, holding 1001 numbered files: one more than
  the script's cap of 1000.
\<close>

definition val_invalid_tree :: fs where
  "val_invalid_tree =
    raw_listing [''..'', ''data'', ''val'']
      [(''Invalid'', map (\<lambda>i. str (int i) @ ''.jpg'') [0..<1001])]"

section \<open>Arithmetic of the two stages\<close>

lemma floor_four_fifths: "\<lfloor>(4 / 5 :: rat) * of_int n\<rfloor> = (4 * n) div 5"
proof -
  have "(4 / 5 :: rat) * of_int n = of_int (4 * n) / of_int 5"
    by simp
  then show ?thesis
    by (simp only: floor_divide_of_int_eq)
qed

lemma ceiling_half: "\<lceil>(1 / 2 :: rat) * of_int n\<rceil> = (n + 1) div 2"
proof -
  have "(1 / 2 :: rat) * of_int n = of_int n / of_int 2"
    by simp
  then have "\<lceil>(1 / 2 :: rat) * of_int n\<rceil> = - ((- n) div 2)"
    by (simp only: ceiling_divide_eq_div)
  then show ?thesis
    by linarith
qed

lemma floor_four_fifths_nat: "\<lfloor>4 * rat_of_nat n / 5\<rfloor> = int ((4 * n) div 5)"
proof -
  have "4 * rat_of_nat n / 5 = (4 / 5 :: rat) * of_int (int n)"
    by simp
  then have "\<lfloor>4 * rat_of_nat n / 5\<rfloor> = (4 * int n) div 5"
    by (simp only: floor_four_fifths)
  then show ?thesis
    by (simp add: zdiv_int)
qed

lemma ceiling_half_nat: "\<lceil>rat_of_nat m / 2\<rceil> = int ((m + 1) div 2)"
proof -
  have "rat_of_nat m / 2 = (1 / 2 :: rat) * of_int (int m)"
    by simp
  then have "\<lceil>rat_of_nat m / 2\<rceil> = (int m + 1) div 2"
    by (simp only: ceiling_half)
  then show ?thesis
    by (simp add: zdiv_int)
qed

lemma validate_train_default:
  "validate_shuffle_split n None (Some (4 / 5)) =
     (if (4 * n) div 5 = 0 then Inl ValueError else Inr ((4 * n) div 5, n - (4 * n) div 5))"
proof -
  have b: "nat (int n - int ((4 * n) div 5)) = n - (4 * n) div 5"
    by linarith
  show ?thesis
    unfolding validate_shuffle_split_def Let_def
    by (simp add: floor_four_fifths_nat b)
qed

lemma validate_test_half:
  "validate_shuffle_split m (Some (1 / 2)) None =
     (if m \<le> 1 then Inl ValueError else Inr (m - (m + 1) div 2, (m + 1) div 2))"
proof -
  have a: "nat (int m - int ((m + 1) div 2)) = m - (m + 1) div 2"
    by linarith
  have c: "(int m = int ((m + 1) div 2)) = (m \<le> 1)"
    by linarith
  show ?thesis
    unfolding validate_shuffle_split_def Let_def
    by (simp add: ceiling_half_nat a c) arith
qed

lemma default_test_size: "TEST_RATIO CONFIG / (TEST_RATIO CONFIG + VAL_RATIO CONFIG) = 1 / 2"
  by (simp add: CONFIG_def)

lemma split_class_default:
  "split_class CONFIG P files =
    (case train_test_split files None (Some (4 / 5)) (P 42) of
       Inl e \<Rightarrow> Inl e
     | Inr (train_files, temp) \<Rightarrow>
         (case train_test_split temp (Some (1 / 2)) None (P 42) of
            Inl e \<Rightarrow> Inl e
          | Inr (val_files, test_files) \<Rightarrow> Inr (train_files, val_files, test_files)))"
proof -
  have r: "TRAIN_RATIO CONFIG = 4 / 5" "RANDOM_SEED CONFIG = 42"
      "TEST_RATIO CONFIG + VAL_RATIO CONFIG \<noteq> 0"
    by (simp_all add: CONFIG_def)
  show ?thesis
    unfolding split_class_def
    by (simp only: r default_test_size if_False)
qed

lemma fraction_bounds:
  fixes t :: rat
  assumes "0 < t" "t < 1"
  shows "0 \<le> \<lfloor>t * of_int (int n)\<rfloor>" "\<lfloor>t * of_int (int n)\<rfloor> \<le> int n"
    "0 \<le> \<lceil>t * of_int (int n)\<rceil>" "\<lceil>t * of_int (int n)\<rceil> \<le> int n"
proof -
  have lo: "0 \<le> t * of_int (int n)"
    using assms by simp
  have hi: "t * of_int (int n) \<le> of_int (int n)"
    using assms by (simp add: mult_left_le_one_le)
  show "0 \<le> \<lfloor>t * of_int (int n)\<rfloor>"
    using lo by (simp only: zero_le_floor)
  show "\<lfloor>t * of_int (int n)\<rfloor> \<le> int n"
    using hi by (metis floor_mono floor_of_int)
  show "0 \<le> \<lceil>t * of_int (int n)\<rceil>"
    using lo by (metis ceiling_mono ceiling_zero)
  show "\<lceil>t * of_int (int n)\<rceil> \<le> int n"
    using hi by (metis ceiling_mono ceiling_of_int)
qed

lemma validate_train_only:
  "validate_shuffle_split n None (Some t) =
     (if t \<le> 0 \<or> 1 \<le> t \<or> \<lfloor>t * of_int (int n)\<rfloor> = 0 then Inl ValueError
      else Inr (nat \<lfloor>t * of_int (int n)\<rfloor>, n - nat \<lfloor>t * of_int (int n)\<rfloor>))"
proof (cases "0 < t \<and> t < 1")
  case True
  have "nat (int n - \<lfloor>t * of_int (int n)\<rfloor>) = n - nat \<lfloor>t * of_int (int n)\<rfloor>"
    using fraction_bounds(1,2)[of t n] True by linarith
  then show ?thesis
    unfolding validate_shuffle_split_def Let_def using True by simp
next
  case False
  then show ?thesis
    unfolding validate_shuffle_split_def Let_def by auto
qed

lemma validate_test_only:
  "validate_shuffle_split n (Some t) None =
     (if t \<le> 0 \<or> 1 \<le> t \<or> \<lceil>t * of_int (int n)\<rceil> = int n then Inl ValueError
      else Inr (n - nat \<lceil>t * of_int (int n)\<rceil>, nat \<lceil>t * of_int (int n)\<rceil>))"
proof (cases "0 < t \<and> t < 1")
  case True
  have "nat (int n - \<lceil>t * of_int (int n)\<rceil>) = n - nat \<lceil>t * of_int (int n)\<rceil>"
    using fraction_bounds(3,4)[of t n] True by linarith
  then show ?thesis
    unfolding validate_shuffle_split_def Let_def using True by auto
next
  case False
  then show ?thesis
    unfolding validate_shuffle_split_def Let_def by auto
qed

lemma validate_train_only_sum:
  assumes "validate_shuffle_split n None (Some t) = Inr (a, b)"
  shows "a + b = n"
proof -
  from assms have t: "0 < t" "t < 1" and a: "a = nat \<lfloor>t * of_int (int n)\<rfloor>" and b: "b = n - a"
    by (auto simp: validate_train_only split: if_splits)
  show ?thesis
    using fraction_bounds(1,2)[OF t, of n] a b by linarith
qed

lemma validate_test_only_sum:
  assumes "validate_shuffle_split n (Some t) None = Inr (a, b)"
  shows "a + b = n"
proof -
  from assms have t: "0 < t" "t < 1" and b: "b = nat \<lceil>t * of_int (int n)\<rceil>" and a: "a = n - b"
    by (auto simp: validate_test_only split: if_splits)
  show ?thesis
    using fraction_bounds(3,4)[OF t, of n] a b by linarith
qed

section \<open>What one call of \<open>train_test_split\<close> returns\<close>

lemma is_permutation_length: "is_permutation q n \<Longrightarrow> length q = n"
  unfolding is_permutation_def using mset_eq_length by fastforce

lemma index_split_mset:
  assumes q: "is_permutation q (length arr)" and ab: "a + b = length arr"
  shows "mset (map (nth arr) (take a (drop b q))) + mset (map (nth arr) (take b q)) = mset arr"
proof -
  have len: "length q = length arr"
    using q by (rule is_permutation_length)
  have "take a (drop b q) = drop b q"
    using len ab by simp
  then have "mset (map (nth arr) (take a (drop b q))) + mset (map (nth arr) (take b q))
      = mset (map (nth arr) (take b q) @ map (nth arr) (drop b q))"
    by (simp add: union_commute)
  also have "\<dots> = mset (map (nth arr) (take b q @ drop b q))"
    by (simp only: map_append)
  also have "\<dots> = image_mset (nth arr) (mset q)"
    by (simp only: append_take_drop_id mset_map)
  also have "\<dots> = image_mset (nth arr) (mset [0..<length arr])"
    using q by (simp add: is_permutation_def)
  also have "\<dots> = mset (map (nth arr) [0..<length arr])"
    by simp
  also have "\<dots> = mset arr"
    by (simp only: map_nth)
  finally show ?thesis .
qed

lemma train_test_split_parts:
  assumes q: "is_permutation (p (length arr)) (length arr)"
    and r: "train_test_split arr ts tr p = Inr (xs, ys)"
    and one: "(ts = None \<and> tr = Some t) \<or> (ts = Some t \<and> tr = None)"
  shows "mset xs + mset ys = mset arr" and "length xs + length ys = length arr"
    and "\<exists>a b. validate_shuffle_split (length arr) ts tr = Inr (a, b) \<and> length xs = a \<and> length ys = b"
proof -
  from r obtain a b where v: "validate_shuffle_split (length arr) ts tr = Inr (a, b)"
    and xs: "xs = map (nth arr) (take a (drop b (p (length arr))))"
    and ys: "ys = map (nth arr) (take b (p (length arr)))"
    unfolding train_test_split_def Let_def by (auto split: sum.splits)
  have ab: "a + b = length arr"
    using v one validate_train_only_sum validate_test_only_sum by blast
  show m: "mset xs + mset ys = mset arr"
    unfolding xs ys using q ab by (rule index_split_mset)
  have "size (mset xs + mset ys) = size (mset arr)"
    by (simp only: m)
  then show "length xs + length ys = length arr"
    by simp
  have len: "length (p (length arr)) = length arr"
    using q by (rule is_permutation_length)
  have "length xs = a" "length ys = b"
    using ab len by (simp_all add: xs ys)
  with v show "\<exists>a b. validate_shuffle_split (length arr) ts tr = Inr (a, b) \<and> length xs = a \<and> length ys = b"
    by blast
qed

lemma train_test_split_train_default:
  "train_test_split arr None (Some (4 / 5)) p =
     (if (4 * length arr) div 5 = 0 then Inl ValueError
      else Inr (map (nth arr) (take ((4 * length arr) div 5) (drop (length arr - (4 * length arr) div 5) (p (length arr)))),
                map (nth arr) (take (length arr - (4 * length arr) div 5) (p (length arr)))))"
  unfolding train_test_split_def by (simp add: validate_train_default Let_def)

lemma train_test_split_test_half:
  "train_test_split arr (Some (1 / 2)) None p =
     (if length arr \<le> 1 then Inl ValueError
      else Inr (map (nth arr) (take (length arr - (length arr + 1) div 2) (drop ((length arr + 1) div 2) (p (length arr)))),
                map (nth arr) (take ((length arr + 1) div 2) (p (length arr)))))"
  unfolding train_test_split_def by (simp add: validate_test_half Let_def)

section \<open>What the two-stage split returns\<close>

lemma split_class_parts:
  assumes P: "\<And>n. is_permutation (P (RANDOM_SEED cfg) n) n"
    and r: "split_class cfg P files = Inr (tr, va, te)"
  shows "mset (tr @ va @ te) = mset files" and "length tr + length va + length te = length files"
proof -
  from r obtain temp where
    s1: "train_test_split files None (Some (TRAIN_RATIO cfg)) (P (RANDOM_SEED cfg)) = Inr (tr, temp)"
    and s2: "train_test_split temp (Some (TEST_RATIO cfg / (TEST_RATIO cfg + VAL_RATIO cfg))) None
               (P (RANDOM_SEED cfg)) = Inr (va, te)"
    unfolding split_class_def by (auto split: sum.splits if_splits)
  have m1: "mset tr + mset temp = mset files"
    using P s1 by (rule train_test_split_parts(1)) simp
  have m2: "mset va + mset te = mset temp"
    using P s2 by (rule train_test_split_parts(1)) simp
  show m: "mset (tr @ va @ te) = mset files"
    using m1 m2 by (simp add: add.assoc)
  have "size (mset (tr @ va @ te)) = size (mset files)"
    by (simp only: m)
  then show "length tr + length va + length te = length files"
    by simp
qed

lemma split_class_default_large:
  assumes P: "\<And>n. is_permutation (P (RANDOM_SEED CONFIG) n) n"
    and n: "6 \<le> length files"
  shows "\<exists>tr va te. split_class CONFIG P files = Inr (tr, va, te)
           \<and> length tr = (4 * length files) div 5
           \<and> length te = (length files - (4 * length files) div 5 + 1) div 2
           \<and> length va = length files - length tr - length te"
proof -
  define k where "k = (4 * length files) div 5"
  define m where "m = length files - k"
  have seed: "RANDOM_SEED CONFIG = 42"
    by (simp add: CONFIG_def)
  have lenP: "length (P 42 j) = j" for j
    using P[of j] by (simp add: seed is_permutation_length)
  have k: "k \<noteq> 0" and m: "2 \<le> m" and km: "k + m = length files"
    using n unfolding k_def m_def by linarith+
  define temp where "temp = map (nth files) (take m (P 42 (length files)))"
  define tr where "tr = map (nth files) (take k (drop m (P 42 (length files))))"
  have s1: "train_test_split files None (Some (4 / 5)) (P 42) = Inr (tr, temp)"
    using k by (simp add: train_test_split_train_default k_def[symmetric] m_def[symmetric] tr_def temp_def)
  have ltemp: "length temp = m" and ltr: "length tr = k"
    using km by (simp_all add: temp_def tr_def lenP)
  define te where "te = map (nth temp) (take ((m + 1) div 2) (P 42 m))"
  define va where "va = map (nth temp) (take (m - (m + 1) div 2) (drop ((m + 1) div 2) (P 42 m)))"
  have s2: "train_test_split temp (Some (1 / 2)) None (P 42) = Inr (va, te)"
    using m by (simp add: train_test_split_test_half ltemp te_def va_def)
  have lte: "length te = (m + 1) div 2" and lva: "length va = m - (m + 1) div 2"
    by (simp_all add: te_def va_def lenP)
  have "split_class CONFIG P files = Inr (tr, va, te)"
    by (simp add: split_class_default s1 s2)
  moreover have "length va = length files - length tr - length te"
    using km by (simp add: lva ltr lte)
  ultimately show ?thesis
    using ltr lte unfolding k_def m_def by blast
qed

lemma split_class_default_small:
  assumes "files \<noteq> []" "length files \<le> 5"
  shows "split_class CONFIG P files = Inl ValueError"
proof (cases "length files = 1")
  case True
  then show ?thesis
    by (simp add: split_class_default train_test_split_train_default)
next
  case False
  from assms(1) have "length files \<noteq> 0"
    by simp
  with False assms(2) have n: "length files \<in> {2, 3, 4, 5}"
    by (simp only: insert_iff empty_iff) linarith
  then have k: "(4 * length files) div 5 \<noteq> 0" "length files - (4 * length files) div 5 = 1"
    by auto
  show ?thesis
    by (simp add: split_class_default train_test_split_train_default train_test_split_test_half k)
qed

section \<open>The splitter on a class\<close>

lemma ascending_is_permutation: "is_permutation (ascending seed n) n"
  by (simp add: is_permutation_def ascending_def)

lemma descending_is_permutation: "is_permutation (descending seed n) n"
  by (simp add: is_permutation_def descending_def)

lemma class_splits_parts:
  assumes P: "\<And>n. is_permutation (P (RANDOM_SEED cfg) n) n"
    and r: "class_splits cfg P files = Inr splits"
  shows "mset (concat (map snd splits)) = mset files"
    and "length (concat (map snd splits)) = length files"
proof -
  show m: "mset (concat (map snd splits)) = mset files"
  proof (cases "files = []")
    case True
    with r show ?thesis
      by (simp add: class_splits_def)
  next
    case False
    with r obtain tr va te where s: "split_class cfg P files = Inr (tr, va, te)"
      and sp: "splits = [(''train'', tr), (''val'', va), (''test'', te)]"
      unfolding class_splits_def by (auto split: sum.splits)
    have "mset (tr @ va @ te) = mset files"
      using P s by (rule split_class_parts(1))
    then show ?thesis
      by (simp add: sp)
  qed
  have "size (mset (concat (map snd splits))) = size (mset files)"
    by (simp only: m)
  then show "length (concat (map snd splits)) = length files"
    by (simp only: size_mset)
qed

lemma class_splits_default_returns:
  assumes P: "\<And>n. is_permutation (P (RANDOM_SEED CONFIG) n) n"
    and n: "files = [] \<or> 6 \<le> length files"
  shows "\<exists>splits. class_splits CONFIG P files = Inr splits"
proof (cases "files = []")
  case True
  then show ?thesis
    by (simp add: class_splits_def)
next
  case False
  with n have "6 \<le> length files"
    by simp
  with P obtain tr va te where "split_class CONFIG P files = Inr (tr, va, te)"
    using split_class_default_large by blast
  with False show ?thesis
    by (simp add: class_splits_def)
qed

text \<open>
  C1, as amended. Under the shipped ratios the splitter returns for a class with no file
  (the class is skipped, nothing is split) and for a class with at least six files.
  Whenever it returns for a class with files, the result is a train, a val and a test list
  whose lengths add up to the size of the bucket and which together hold exactly the files
  of the bucket, each as often as the bucket does; when the bucket lists no path twice,
  no path is in two of the lists nor twice in one. Over buckets of these sizes the lengths
  of all the lists add up to the number of scanned files.
\<close>

theorem class_splits_partition:
  assumes P: "\<And>n. is_permutation (P (RANDOM_SEED CONFIG) n) n"
  shows "(files = [] \<or> 6 \<le> length files \<longrightarrow> (\<exists>splits. class_splits CONFIG P files = Inr splits))
    \<and> (files \<noteq> [] \<and> class_splits CONFIG P files = Inr splits \<longrightarrow>
          (\<exists>tr va te. splits = [(''train'', tr), (''val'', va), (''test'', te)]
             \<and> length tr + length va + length te = length files
             \<and> mset (tr @ va @ te) = mset files
             \<and> (distinct files \<longrightarrow>
                   set tr \<inter> set va = {} \<and> set tr \<inter> set te = {} \<and> set va \<inter> set te = {}
                   \<and> distinct tr \<and> distinct va \<and> distinct te)))
    \<and> (list_all (\<lambda>(cls, files). files = [] \<or> 6 \<le> length files) entries \<longrightarrow>
          sum_list (map (\<lambda>(cls, files). case class_splits CONFIG P files of
                            Inr splits \<Rightarrow> length (concat (map snd splits)) | Inl e \<Rightarrow> 0) entries)
          = sum_list (map (\<lambda>(cls, files). length files) entries))"
proof (intro conjI impI)
  assume "files = [] \<or> 6 \<le> length files"
  with P show "\<exists>splits. class_splits CONFIG P files = Inr splits"
    by (rule class_splits_default_returns)
next
  assume a: "files \<noteq> [] \<and> class_splits CONFIG P files = Inr splits"
  then obtain tr va te where s: "split_class CONFIG P files = Inr (tr, va, te)"
    and sp: "splits = [(''train'', tr), (''val'', va), (''test'', te)]"
    unfolding class_splits_def by (auto split: sum.splits)
  have m: "mset (tr @ va @ te) = mset files"
    using P s by (rule split_class_parts(1))
  have l: "length tr + length va + length te = length files"
    using P s by (rule split_class_parts(2))
  have d: "distinct (tr @ va @ te)" if "distinct files"
    using m that by (metis mset_eq_imp_distinct_iff)
  have "set tr \<inter> set va = {} \<and> set tr \<inter> set te = {} \<and> set va \<inter> set te = {}
      \<and> distinct tr \<and> distinct va \<and> distinct te" if "distinct files"
    using d[OF that] by auto
  with sp m l show "\<exists>tr va te. splits = [(''train'', tr), (''val'', va), (''test'', te)]
             \<and> length tr + length va + length te = length files
             \<and> mset (tr @ va @ te) = mset files
             \<and> (distinct files \<longrightarrow>
                   set tr \<inter> set va = {} \<and> set tr \<inter> set te = {} \<and> set va \<inter> set te = {}
                   \<and> distinct tr \<and> distinct va \<and> distinct te)"
    by blast
next
  assume "list_all (\<lambda>(cls, files). files = [] \<or> 6 \<le> length files) entries"
  then show "sum_list (map (\<lambda>(cls, files). case class_splits CONFIG P files of
                            Inr splits \<Rightarrow> length (concat (map snd splits)) | Inl e \<Rightarrow> 0) entries)
          = sum_list (map (\<lambda>(cls, files). length files) entries)"
  proof (induction entries)
    case Nil
    then show ?case by simp
  next
    case (Cons entry entries)
    obtain cls fl where entry: "entry = (cls, fl)"
      by (cases entry)
    from Cons.prems entry have "fl = [] \<or> 6 \<le> length fl"
      by simp
    with P obtain sp where sp: "class_splits CONFIG P fl = Inr sp"
      using class_splits_default_returns by blast
    have "length (concat (map snd sp)) = length fl"
      using P sp by (rule class_splits_parts(2))
    with Cons entry sp show ?case
      by simp
  qed
qed

theorem class_splits_partition_witness:
  "(\<exists>splits. class_splits CONFIG descending (numbered_images [''like''] 6) = Inr splits)
   \<and> class_splits CONFIG descending (numbered_images [''like''] 6) =
       Inr [(''train'', [[''like'', ''3.jpg''], [''like'', ''2.jpg''], [''like'', ''1.jpg''], [''like'', ''0.jpg'']]),
            (''val'', [[''like'', ''5.jpg'']]),
            (''test'', [[''like'', ''4.jpg'']])]
   \<and> sum_list (map (\<lambda>(cls, files). case class_splits CONFIG descending files of
                       Inr splits \<Rightarrow> length (concat (map snd splits)) | Inl e \<Rightarrow> 0)
         [(''Forward'', numbered_images [''like''] 6), (''Stop'', [])]) = 6"
proof -
  have six: "numbered_images [''like''] 6 =
      [[''like'', ''0.jpg''], [''like'', ''1.jpg''], [''like'', ''2.jpg''],
       [''like'', ''3.jpg''], [''like'', ''4.jpg''], [''like'', ''5.jpg'']]"
    by code_simp
  have run: "class_splits CONFIG descending (numbered_images [''like''] 6) =
       Inr [(''train'', [[''like'', ''3.jpg''], [''like'', ''2.jpg''], [''like'', ''1.jpg''], [''like'', ''0.jpg'']]),
            (''val'', [[''like'', ''5.jpg'']]),
            (''test'', [[''like'', ''4.jpg'']])]"
    unfolding six
    by (simp add: class_splits_def split_class_default train_test_split_train_default
        train_test_split_test_half descending_def upt_rec_numeral)
  have len: "length (numbered_images [''like''] 6) = 6"
    by (simp add: numbered_images_def)
  show ?thesis
    using class_splits_partition [of descending "numbered_images [''like''] 6"
        "[(''train'', [[''like'', ''3.jpg''], [''like'', ''2.jpg''], [''like'', ''1.jpg''], [''like'', ''0.jpg'']]),
            (''val'', [[''like'', ''5.jpg'']]), (''test'', [[''like'', ''4.jpg'']])]"
        "[(''Forward'', numbered_images [''like''] 6), (''Stop'', [])]",
        OF descending_is_permutation]
    by (simp add: run len)
qed

theorem class_splits_partition_counterexample:
  "class_splits CONFIG ascending (numbered_images (RAW_ROOT CONFIG @ [''like'']) 3) = Inl ValueError"
proof -
  have "numbered_images (RAW_ROOT CONFIG @ [''like'']) 3 \<noteq> []"
      "length (numbered_images (RAW_ROOT CONFIG @ [''like'']) 3) \<le> 5"
    by (simp_all add: numbered_images_def)
  then have "split_class CONFIG ascending (numbered_images (RAW_ROOT CONFIG @ [''like'']) 3) = Inl ValueError"
    by (rule split_class_default_small)
  then show ?thesis
    by (simp add: class_splits_def numbered_images_def)
qed

text \<open>
  C7, as amended. Under the shipped ratios (0.8, 0.1, 0.1) and for a class with at least
  six files, the splitter returns; the train list has \<open>floor (n * train_ratio)\<close> files, the
  test list takes the share \<open>test_ratio / (test_ratio + val_ratio)\<close> of the remaining
  \<open>n - train_count\<close> files, rounded up, and the val list the rest of them; the train count
  is within one of \<open>0.8 * n\<close>, never above it.
\<close>

theorem split_class_counts:
  assumes P: "\<And>n. is_permutation (P (RANDOM_SEED CONFIG) n) n"
    and n: "6 \<le> length files"
  shows "\<exists>tr va te. split_class CONFIG P files = Inr (tr, va, te)
     \<and> int (length tr) = \<lfloor>TRAIN_RATIO CONFIG * of_nat (length files)\<rfloor>
     \<and> int (length te) = \<lceil>TEST_RATIO CONFIG / (TEST_RATIO CONFIG + VAL_RATIO CONFIG)
                             * of_nat (length files - length tr)\<rceil>
     \<and> length va = length files - length tr - length te
     \<and> TRAIN_RATIO CONFIG * of_nat (length files) - 1 < of_nat (length tr)
     \<and> of_nat (length tr) \<le> TRAIN_RATIO CONFIG * of_nat (length files)"
proof -
  have "\<exists>tr va te. split_class CONFIG P files = Inr (tr, va, te)
           \<and> length tr = (4 * length files) div 5
           \<and> length te = (length files - (4 * length files) div 5 + 1) div 2
           \<and> length va = length files - length tr - length te"
    using P n by (rule split_class_default_large)
  then obtain tr va te where
    s: "split_class CONFIG P files = Inr (tr, va, te)"
    and ltr: "length tr = (4 * length files) div 5"
    and lte: "length te = (length files - (4 * length files) div 5 + 1) div 2"
    and lva: "length va = length files - length tr - length te"
    by blast
  have r: "TRAIN_RATIO CONFIG = 4 / 5"
    by (simp add: CONFIG_def)
  have fl: "\<lfloor>TRAIN_RATIO CONFIG * of_nat (length files)\<rfloor> = int ((4 * length files) div 5)"
    unfolding r using floor_four_fifths_nat[of "length files"] by simp
  have a: "int (length tr) = \<lfloor>TRAIN_RATIO CONFIG * of_nat (length files)\<rfloor>"
    by (simp only: fl ltr)
  have ce: "\<lceil>TEST_RATIO CONFIG / (TEST_RATIO CONFIG + VAL_RATIO CONFIG)
               * of_nat (length files - length tr)\<rceil> = int ((length files - length tr + 1) div 2)"
    unfolding default_test_size using ceiling_half_nat[of "length files - length tr"] by simp
  have b: "int (length te) = \<lceil>TEST_RATIO CONFIG / (TEST_RATIO CONFIG + VAL_RATIO CONFIG)
                             * of_nat (length files - length tr)\<rceil>"
    by (simp only: ce) (simp only: lte ltr)
  have c: "TRAIN_RATIO CONFIG * of_nat (length files) - 1 < of_nat (length tr)"
  proof -
    have "TRAIN_RATIO CONFIG * of_nat (length files) < of_int \<lfloor>TRAIN_RATIO CONFIG * of_nat (length files)\<rfloor> + 1"
      by linarith
    then show ?thesis
      by (simp add: a[symmetric])
  qed
  have d: "of_nat (length tr) \<le> TRAIN_RATIO CONFIG * of_nat (length files)"
  proof -
    have "of_int \<lfloor>TRAIN_RATIO CONFIG * of_nat (length files)\<rfloor> \<le> TRAIN_RATIO CONFIG * of_nat (length files)"
      by linarith
    then show ?thesis
      by (simp add: a[symmetric])
  qed
  from s a b lva c d show ?thesis
    by blast
qed

theorem split_class_counts_witness:
  "split_class CONFIG ascending (numbered_images [''palm''] 7) =
     Inr ([[''palm'', ''2.jpg''], [''palm'', ''3.jpg''], [''palm'', ''4.jpg''], [''palm'', ''5.jpg''],
           [''palm'', ''6.jpg'']],
          [[''palm'', ''1.jpg'']],
          [[''palm'', ''0.jpg'']])
   \<and> \<lfloor>TRAIN_RATIO CONFIG * of_nat (length (numbered_images [''palm''] 7))\<rfloor> = 5"
proof -
  have len: "length (numbered_images [''palm''] 7) = 7"
    by (simp add: numbered_images_def)
  have seven: "numbered_images [''palm''] 7 =
      [[''palm'', ''0.jpg''], [''palm'', ''1.jpg''], [''palm'', ''2.jpg''], [''palm'', ''3.jpg''],
       [''palm'', ''4.jpg''], [''palm'', ''5.jpg''], [''palm'', ''6.jpg'']]"
    by code_simp
  have run: "split_class CONFIG ascending (numbered_images [''palm''] 7) =
     Inr ([[''palm'', ''2.jpg''], [''palm'', ''3.jpg''], [''palm'', ''4.jpg''], [''palm'', ''5.jpg''],
           [''palm'', ''6.jpg'']],
          [[''palm'', ''1.jpg'']],
          [[''palm'', ''0.jpg'']])"
    unfolding seven
    by (simp add: split_class_default train_test_split_train_default
        train_test_split_test_half ascending_def upt_rec_numeral)
  show ?thesis
    using split_class_counts [of ascending "numbered_images [''palm''] 7", OF ascending_is_permutation]
    by (simp add: run len)
qed

theorem split_class_counts_counterexample:
  "\<lfloor>TRAIN_RATIO CONFIG * of_nat (length (numbered_images [''fist''] 5))\<rfloor> = 4
   \<and> split_class CONFIG descending (numbered_images [''fist''] 5) = Inl ValueError"
proof -
  have len: "length (numbered_images [''fist''] 5) = 5"
    by (simp add: numbered_images_def)
  have "numbered_images [''fist''] 5 \<noteq> []"
    using len by fastforce
  then have "split_class CONFIG descending (numbered_images [''fist''] 5) = Inl ValueError"
    by (rule split_class_default_small) (simp add: len)
  moreover have "\<lfloor>TRAIN_RATIO CONFIG * of_nat (length (numbered_images [''fist''] 5))\<rfloor> = 4"
    using floor_four_fifths_nat[of 5] by (simp add: len CONFIG_def)
  ultimately show ?thesis
    by simp
qed

text \<open>
  C9. The two-stage split is not total on non-empty lists: under the shipped ratios it
  raises ValueError for every class with one to five files. With one file the first call
  raises (its train part would be empty); with two to five files the first call returns
  and leaves at most one file, on which the second call raises. The exception is not
  caught, so the loop body of \<open>copy_split\<close> raises for such a class.
\<close>

theorem split_class_raises_on_small_classes:
  assumes "files \<noteq> []" and "length files \<le> 5"
  shows "split_class CONFIG P files = Inl ValueError
    \<and> copy_class CONFIG P out_root (cls, files) st = Inl ValueError
    \<and> (length files = 1 \<longrightarrow>
          train_test_split files None (Some (TRAIN_RATIO CONFIG)) (P (RANDOM_SEED CONFIG)) = Inl ValueError)
    \<and> (2 \<le> length files \<longrightarrow>
          (\<exists>tr temp. train_test_split files None (Some (TRAIN_RATIO CONFIG)) (P (RANDOM_SEED CONFIG))
                        = Inr (tr, temp)
             \<and> length temp \<le> 1
             \<and> train_test_split temp (Some (TEST_RATIO CONFIG / (TEST_RATIO CONFIG + VAL_RATIO CONFIG)))
                 None (P (RANDOM_SEED CONFIG)) = Inl ValueError))"
proof -
  have s: "split_class CONFIG P files = Inl ValueError"
    using assms by (rule split_class_default_small)
  have c: "copy_class CONFIG P out_root (cls, files) st = Inl ValueError"
    using assms(1) by (simp add: copy_class_def class_splits_def s)
  have r: "TRAIN_RATIO CONFIG = 4 / 5" "RANDOM_SEED CONFIG = 42"
    by (simp_all add: CONFIG_def)
  have one: "train_test_split files None (Some (TRAIN_RATIO CONFIG)) (P (RANDOM_SEED CONFIG)) = Inl ValueError"
    if "length files = 1"
    using that by (simp add: r train_test_split_train_default)
  have two: "\<exists>tr temp. train_test_split files None (Some (TRAIN_RATIO CONFIG)) (P (RANDOM_SEED CONFIG))
                        = Inr (tr, temp)
             \<and> length temp \<le> 1
             \<and> train_test_split temp (Some (TEST_RATIO CONFIG / (TEST_RATIO CONFIG + VAL_RATIO CONFIG)))
                 None (P (RANDOM_SEED CONFIG)) = Inl ValueError"
    if "2 \<le> length files"
  proof -
    from that assms(2) have k: "(4 * length files) div 5 \<noteq> 0" "length files - (4 * length files) div 5 = 1"
      by linarith+
    define temp where "temp = map (nth files) (take 1 (P 42 (length files)))"
    have "length temp \<le> 1"
      by (simp add: temp_def)
    then have "train_test_split temp (Some (1 / 2)) None (P 42) = Inl ValueError"
      by (simp add: train_test_split_test_half)
    moreover have "train_test_split files None (Some (4 / 5)) (P 42)
        = Inr (map (nth files) (take ((4 * length files) div 5) (drop 1 (P 42 (length files)))), temp)"
      using k by (simp add: train_test_split_train_default temp_def)
    ultimately show ?thesis
      using \<open>length temp \<le> 1\<close> by (simp add: r default_test_size)
  qed
  from s c one two show ?thesis
    by blast
qed

theorem split_class_raises_on_small_classes_witness:
  "split_class CONFIG ascending [[''one'', ''a.png''], [''one'', ''b.png'']] = Inl ValueError
   \<and> train_test_split [[''one'', ''a.png''], [''one'', ''b.png'']] None (Some (TRAIN_RATIO CONFIG))
        (ascending (RANDOM_SEED CONFIG)) = Inr ([[''one'', ''b.png'']], [[''one'', ''a.png'']])
   \<and> train_test_split [[''one'', ''a.png'']] (Some (TEST_RATIO CONFIG / (TEST_RATIO CONFIG + VAL_RATIO CONFIG)))
        None (ascending (RANDOM_SEED CONFIG)) = Inl ValueError"
proof -
  have r: "TRAIN_RATIO CONFIG = 4 / 5" "RANDOM_SEED CONFIG = 42"
    by (simp_all add: CONFIG_def)
  have first: "train_test_split [[''one'', ''a.png''], [''one'', ''b.png'']] None (Some (TRAIN_RATIO CONFIG))
        (ascending (RANDOM_SEED CONFIG)) = Inr ([[''one'', ''b.png'']], [[''one'', ''a.png'']])"
    by (simp add: r train_test_split_train_default ascending_def upt_rec_numeral)
  show ?thesis
    using split_class_raises_on_small_classes
      [of "[[''one'', ''a.png''], [''one'', ''b.png'']]" ascending "[]" "''Left''"
          "\<lparr>disk = [], random_state = unseeded, total_copied = 0\<rparr>"]
    by (simp add: first)
qed

section \<open>Counting the transfers\<close>

lemma for_each_count:
  assumes step: "\<And>x s s'. body x s = Inr s' \<Longrightarrow> f s' = (f s :: nat) + w x"
    and run: "for_each body xs s = Inr s'"
  shows "f s' = f s + sum_list (map w xs)"
  using run
proof (induction xs arbitrary: s)
  case Nil
  then show ?case by simp
next
  case (Cons x xs)
  from Cons.prems obtain s1 where b: "body x s = Inr s1" and r: "for_each body xs s1 = Inr s'"
    by (auto split: sum.splits)
  have "f s1 = f s + w x"
    using b by (rule step)
  moreover have "f s' = f s1 + sum_list (map w xs)"
    using r by (rule Cons.IH)
  ultimately show ?case
    by simp
qed

lemma copy_file_count:
  assumes "copy_file cfg dest_dir src_file st = Inr st'"
  shows "total_copied st' = total_copied st + 1"
  using assms unfolding copy_file_def
  by (auto split: prod.splits sum.splits)

lemma copy_list_count:
  assumes "for_each (copy_file cfg dest_dir) file_list st = Inr st'"
  shows "total_copied st' = total_copied st + length file_list"
proof -
  have "total_copied st' = total_copied st + sum_list (map (\<lambda>x. 1) file_list)"
    using copy_file_count assms by (rule for_each_count)
  then show ?thesis
    by (simp add: sum_list_triv)
qed

lemma copy_class_count:
  assumes P: "\<And>n. is_permutation (P (RANDOM_SEED cfg) n) n"
    and run: "copy_class cfg P out_root (cls, files) st = Inr st'"
  shows "total_copied st' = total_copied st + length files"
proof -
  from run obtain splits where sp: "class_splits cfg P files = Inr splits"
    and loop: "for_each (\<lambda>(split_name, file_list).
                  for_each (copy_file cfg (out_root @ [split_name, cls])) file_list) splits st = Inr st'"
    unfolding copy_class_def by (auto split: sum.splits)
  have step: "total_copied s' = total_copied s + length (snd x)"
    if "(\<lambda>(split_name, file_list).
          for_each (copy_file cfg (out_root @ [split_name, cls])) file_list) x s = Inr s'"
    for x s s'
    using that copy_list_count by (cases x) auto
  have "total_copied st' = total_copied st + sum_list (map (\<lambda>x. length (snd x)) splits)"
    using step loop by (rule for_each_count)
  also have "sum_list (map (\<lambda>x. length (snd x)) splits) = length (concat (map snd splits))"
    by (simp add: length_concat comp_def)
  also have "\<dots> = length files"
    using P sp by (rule class_splits_parts(2))
  finally show ?thesis .
qed

lemma copy_split_count:
  assumes P: "\<And>n. is_permutation (P (RANDOM_SEED cfg) n) n"
    and run: "copy_split cfg P S g0 entries out_root fs = Inr r"
  shows "copied r = to_copy r" and "to_copy r = sum_list (map (\<lambda>(cls, files). length files) entries)"
proof -
  from run obtain st where loop: "for_each (copy_class cfg P out_root) entries
        \<lparr>disk = fs, random_state = S (RANDOM_SEED cfg), total_copied = 0\<rparr> = Inr st"
    and c: "copied r = total_copied st"
    and t: "to_copy r = sum_list (map (\<lambda>(cls, files). length files) entries)"
    unfolding copy_split_def Let_def by (auto split: sum.splits)
  have step: "total_copied s' = total_copied s + (\<lambda>(cls, files). length files) x"
    if "copy_class cfg P out_root x s = Inr s'" for x s s'
  proof -
    obtain cls files where x: "x = (cls, files)"
      by (cases x)
    have "total_copied s' = total_copied s + length files"
      using P that[unfolded x] by (rule copy_class_count)
    then show ?thesis
      by (simp add: x)
  qed
  have "total_copied st = total_copied \<lparr>disk = fs, random_state = S (RANDOM_SEED cfg), total_copied = 0\<rparr>
      + sum_list (map (\<lambda>(cls, files). length files) entries)"
    using step loop by (rule for_each_count)
  then show "copied r = to_copy r"
    by (simp add: c t)
  show "to_copy r = sum_list (map (\<lambda>(cls, files). length files) entries)"
    by (rule t)
qed

lemma main_complete:
  assumes "main cfg P S g0 response fs = Complete r"
  shows "\<exists>fs1 entries. ensure_dirs (OUT_ROOT cfg) fs = Inr fs1
      \<and> collect_images_per_class fs1 (RAW_ROOT cfg) = Inr entries
      \<and> copy_split cfg P S g0 entries (OUT_ROOT cfg) fs1 = Inr r"
  using assms unfolding main_def
  by (auto split: sum.splits bool.splits if_splits)

text \<open>
  C4, as amended. The script compares no counts: a run that raises no exception ends with
  the success message. In such a run the number of transfers carried out
  (\<open>total_copied\<close>) equals the number of scanned files (\<open>total_to_copy\<close>); the number of
  files \<open>verify_output\<close> then finds on disk is printed and compared with nothing.
\<close>

theorem completed_run_counts:
  assumes P: "\<And>n. is_permutation (P (RANDOM_SEED cfg) n) n"
    and run: "main cfg P S g0 response fs = Complete r"
  shows "copied r = to_copy r
    \<and> (\<exists>fs1 entries. ensure_dirs (OUT_ROOT cfg) fs = Inr fs1
          \<and> collect_images_per_class fs1 (RAW_ROOT cfg) = Inr entries
          \<and> to_copy r = sum_list (map (\<lambda>(cls, files). length files) entries)
          \<and> verify_output (OUT_ROOT cfg) (final_disk r) = Inr (verified r))"
proof -
  from main_complete[OF run] obtain fs1 entries where
    e: "ensure_dirs (OUT_ROOT cfg) fs = Inr fs1"
    and c: "collect_images_per_class fs1 (RAW_ROOT cfg) = Inr entries"
    and s: "copy_split cfg P S g0 entries (OUT_ROOT cfg) fs1 = Inr r"
    by blast
  have "verify_output (OUT_ROOT cfg) (final_disk r) = Inr (verified r)"
    using s unfolding copy_split_def Let_def by (auto split: sum.splits)
  moreover have "copied r = to_copy r"
    using P s by (rule copy_split_count(1))
  moreover have "to_copy r = sum_list (map (\<lambda>(cls, files). length files) entries)"
    using P s by (rule copy_split_count(2))
  ultimately show ?thesis
    using e c by blast
qed

theorem completed_run_counts_witness:
  "printed_counts (main CONFIG descending always_seven unseeded ''Y''
      (raw_listing (RAW_ROOT CONFIG)
         [(''fist'', [''0.jpg'', ''1.jpg'', ''2.jpg'', ''3.jpg'', ''4.jpg'', ''5.jpg'', ''6.jpg''])]))
    = Some (7, 7, 7)"
proof -
  have run: "printed_counts (main CONFIG descending always_seven unseeded ''Y''
      (raw_listing (RAW_ROOT CONFIG)
         [(''fist'', [''0.jpg'', ''1.jpg'', ''2.jpg'', ''3.jpg'', ''4.jpg'', ''5.jpg'', ''6.jpg''])]))
    = Some (7, 7, 7)"
    by code_simp
  then obtain r where r: "main CONFIG descending always_seven unseeded ''Y''
      (raw_listing (RAW_ROOT CONFIG)
         [(''fist'', [''0.jpg'', ''1.jpg'', ''2.jpg'', ''3.jpg'', ''4.jpg'', ''5.jpg'', ''6.jpg''])]) = Complete r"
    by (auto simp: printed_counts_def split: outcome.splits)
  have "copied r = to_copy r"
    using completed_run_counts[of descending CONFIG, OF descending_is_permutation r] by blast
  with run show ?thesis
    by simp
qed

text \<open>
  The run of the shipped configuration on \<open>shared_names_tree\<close>, with the draws and the
  permutations the real generators give for the seed 42: the first collision of the run
  is the second a.jpg, the draw is 83810, and the copy of a_83810.jpg made before it is
  replaced. Ten files were scanned, ten transfers are counted, nine files are on disk, and
  the run ends with the success message. (The order of the train list under the
  permutation is positions 5, 0, 7, 2, 9, 4, 3, 6; under the indices in ascending or in
  descending order the same file is lost.)
\<close>

theorem completed_run_counts_counterexample:
  "printed_counts (main CONFIG numpy_seed_42 python_seed_42 unseeded ''y'' shared_names_tree)
    = Some (10, 10, 9)"
  by code_simp

section \<open>What the seed fixes and what the start-up check looks at\<close>













text \<open>
  C6. A raw root whose one label directory holds no image file: the scan returns a dict
  with one key and an empty list, which is not an empty dict, so the test before the copy
  step ("No images found") does not fire; the run goes on and ends with the success
  message, having processed 0 of 0 files.
\<close>

theorem main_on_label_directory_without_images:
  "collect_images_per_class (raw_listing (RAW_ROOT CONFIG) [(''like'', [''notes.txt''])]) (RAW_ROOT CONFIG)
     = Inr [(''Forward'', [])]
   \<and> printed_counts (main CONFIG ascending always_seven unseeded ''y''
        (raw_listing (RAW_ROOT CONFIG) [(''like'', [''notes.txt''])])) = Some (0, 0, 0)"
  by code_simp

section \<open>Filename collisions\<close>

lemma node_at_root: "node_at fs [] = Some Dir"
  by (simp add: node_at_def)

lemma node_at_update:
  "node_at (AList.update q v fs) p = (if p = [] then Some Dir else if p = q then Some v else node_at fs p)"
  by (simp add: node_at_def update_conv')

lemma node_at_delete:
  "node_at (AList.delete q fs) p = (if p = [] then Some Dir else if p = q then None else node_at fs p)"
  by (simp add: node_at_def delete_conv')

lemma copy2_result:
  assumes "copy2 fs src dst = Inr fs'" and "\<not> isdir fs dst" and "node_at fs src = Some (File c)"
  shows "src \<noteq> dst \<and> fs' = AList.update dst (File c) fs"
  using assms unfolding copy2_def Let_def
  by (simp split: if_splits)

lemma move_file_result:
  assumes "move fs src dst = Inr fs'" and "\<not> isdir fs dst" and "node_at fs src = Some (File c)"
    and "src \<noteq> dst"
  shows "fs' = AList.update dst (File c) (AList.delete src fs)"
  using assms unfolding move_def Let_def
  by (simp split: if_splits)

lemma destination_form:
  "fst (destination fs g dest_dir src_file) =
      (if path_exists fs (dest_dir @ [basename src_file])
       then dest_dir @ [fst (splitext (basename src_file)) @ ''_'' @ str (g 0)
                         @ snd (splitext (basename src_file))]
       else dest_dir @ [basename src_file])"
  unfolding destination_def Let_def by (simp add: split_beta)

lemma copy_file_result:
  assumes "copy_file cfg dest_dir src_file st = Inr st'"
  shows "(if COPY_FILES cfg
          then copy2 (disk st) src_file (fst (destination (disk st) (random_state st) dest_dir src_file))
          else move (disk st) src_file (fst (destination (disk st) (random_state st) dest_dir src_file)))
         = Inr (disk st')"
  using assms unfolding copy_file_def
  by (cases "destination (disk st) (random_state st) dest_dir src_file") (auto split: sum.splits)

text \<open>
  C3, as amended. When the computed destination exists, the file is written under the base
  name followed by an underscore, the decimal digits of the drawn number and the
  extension; otherwise under its own base name. If the path chosen this way is free and
  the source is a regular file, a transfer that returns overwrites nothing: the chosen
  path now holds the source's contents, every other path that existed holds what it held
  (the source itself excepted, which move mode removes and copy mode keeps).
\<close>

theorem copy_file_keeps_existing_files:
  assumes ok: "copy_file cfg dest_dir src_file st = Inr st'"
    and src: "node_at (disk st) src_file = Some (File c)"
    and free: "\<not> path_exists (disk st) (fst (destination (disk st) (random_state st) dest_dir src_file))"
  shows "fst (destination (disk st) (random_state st) dest_dir src_file) =
      (if path_exists (disk st) (dest_dir @ [basename src_file])
       then dest_dir @ [fst (splitext (basename src_file)) @ ''_'' @ str (random_state st 0)
                         @ snd (splitext (basename src_file))]
       else dest_dir @ [basename src_file])
    \<and> node_at (disk st') (fst (destination (disk st) (random_state st) dest_dir src_file)) = Some (File c)
    \<and> (\<forall>p. p \<noteq> src_file \<and> path_exists (disk st) p \<longrightarrow> node_at (disk st') p = node_at (disk st) p)
    \<and> (COPY_FILES cfg \<longrightarrow> node_at (disk st') src_file = Some (File c))"
proof -
  define target where "target = fst (destination (disk st) (random_state st) dest_dir src_file)"
  have nofree: "node_at (disk st) target = None"
    using free unfolding target_def path_exists_def by simp
  have notdir: "\<not> isdir (disk st) target"
    by (simp add: isdir_def nofree)
  have ne: "target \<noteq> []"
    using nofree by (auto simp: node_at_def)
  have srcne: "src_file \<noteq> target"
    using src nofree by auto
  have res: "(if COPY_FILES cfg then copy2 (disk st) src_file target else move (disk st) src_file target)
      = Inr (disk st')"
    unfolding target_def using ok by (rule copy_file_result)
  have upd: "disk st' = (if COPY_FILES cfg then AList.update target (File c) (disk st)
                         else AList.update target (File c) (AList.delete src_file (disk st)))"
  proof (cases "COPY_FILES cfg")
    case True
    with res have "copy2 (disk st) src_file target = Inr (disk st')"
      by simp
    from copy2_result[OF this notdir src] True show ?thesis
      by simp
  next
    case False
    with res have "move (disk st) src_file target = Inr (disk st')"
      by simp
    from move_file_result[OF this notdir src srcne] False show ?thesis
      by simp
  qed
  have a: "node_at (disk st') target = Some (File c)"
    using ne by (simp add: upd node_at_update)
  have b: "node_at (disk st') p = node_at (disk st) p" if "p \<noteq> src_file" "path_exists (disk st) p" for p
  proof -
    have "p \<noteq> target"
      using that(2) nofree by (auto simp: path_exists_def)
    with that(1) show ?thesis
      by (simp add: upd node_at_update node_at_delete node_at_root)
  qed
  have srcroot: "src_file \<noteq> []"
    using src by (auto simp: node_at_def)
  have c: "node_at (disk st') src_file = Some (File c)" if "COPY_FILES cfg"
    using that srcne srcroot src by (simp add: upd node_at_update)
  show ?thesis
    using a b c unfolding target_def by (simp add: destination_form)
qed

theorem copy_file_keeps_existing_files_witness:
  "map_sum id disk
     (copy_file CONFIG [''out'', ''train'', ''Stop''] [''raw'', ''palm'', ''a.jpg'']
        \<lparr>disk = [([''raw'', ''palm'', ''a.jpg''], File ''new''), ([''out'', ''train'', ''Stop''], Dir),
                 ([''out'', ''train'', ''Stop'', ''a.jpg''], File ''old'')],
          random_state = python_seed_42 42, total_copied = 0\<rparr>)
   = Inr [([''raw'', ''palm'', ''a.jpg''], File ''new''), ([''out'', ''train'', ''Stop''], Dir),
          ([''out'', ''train'', ''Stop'', ''a.jpg''], File ''old''),
          ([''out'', ''train'', ''Stop'', ''a_83810.jpg''], File ''new'')]"
proof -
  define st where "st = \<lparr>disk = [([''raw'', ''palm'', ''a.jpg''], File ''new''), ([''out'', ''train'', ''Stop''], Dir),
                 ([''out'', ''train'', ''Stop'', ''a.jpg''], File ''old'')],
          random_state = python_seed_42 42, total_copied = 0\<rparr>"
  have ev: "map_sum id disk (copy_file CONFIG [''out'', ''train'', ''Stop''] [''raw'', ''palm'', ''a.jpg''] st)
     = Inr [([''raw'', ''palm'', ''a.jpg''], File ''new''), ([''out'', ''train'', ''Stop''], Dir),
          ([''out'', ''train'', ''Stop'', ''a.jpg''], File ''old''),
          ([''out'', ''train'', ''Stop'', ''a_83810.jpg''], File ''new'')]"
    unfolding st_def by code_simp
  then obtain st' where run: "copy_file CONFIG [''out'', ''train'', ''Stop''] [''raw'', ''palm'', ''a.jpg''] st = Inr st'"
    by (cases "copy_file CONFIG [''out'', ''train'', ''Stop''] [''raw'', ''palm'', ''a.jpg''] st") auto
  have src: "node_at (disk st) [''raw'', ''palm'', ''a.jpg''] = Some (File ''new'')"
    unfolding st_def by code_simp
  have free: "\<not> path_exists (disk st)
      (fst (destination (disk st) (random_state st) [''out'', ''train'', ''Stop''] [''raw'', ''palm'', ''a.jpg'']))"
    unfolding st_def by code_simp
  have keep: "\<forall>p. p \<noteq> [''raw'', ''palm'', ''a.jpg''] \<and> path_exists (disk st) p \<longrightarrow>
      node_at (disk st') p = node_at (disk st) p"
    using copy_file_keeps_existing_files[OF run src free] by blast
  have ex: "path_exists (disk st) [''out'', ''train'', ''Stop'', ''a.jpg'']"
    unfolding st_def by code_simp
  have "node_at (disk st') [''out'', ''train'', ''Stop'', ''a.jpg''] =
      node_at (disk st) [''out'', ''train'', ''Stop'', ''a.jpg'']"
    using keep[rule_format, of "[''out'', ''train'', ''Stop'', ''a.jpg'']"] ex by simp
  with ev show ?thesis
    unfolding st_def by simp
qed

text \<open>
  Three files into one destination directory, with the generator as \<open>random.seed(42)\<close>
  leaves it: a.jpg arrives under its name, a_83810.jpg under its name, and the second
  a.jpg, renamed with the draw 83810, replaces it. Three transfers are counted, two files
  are there, and nothing is raised.
\<close>

theorem copy_file_keeps_existing_files_counterexample:
  "map_sum id (\<lambda>st'. (total_copied st', filter (\<lambda>(p, n). take 1 p = [''out'']) (disk st')))
     (for_each (copy_file CONFIG [''out'', ''train'', ''Invalid''])
        [[''raw'', ''call'', ''a.jpg''], [''raw'', ''dislike'', ''a_83810.jpg''], [''raw'', ''rock'', ''a.jpg'']]
        \<lparr>disk = [([''raw'', ''call'', ''a.jpg''], File ''call''),
                 ([''raw'', ''dislike'', ''a_83810.jpg''], File ''dislike''),
                 ([''raw'', ''rock'', ''a.jpg''], File ''rock''),
                 ([''out'', ''train'', ''Invalid''], Dir)],
          random_state = python_seed_42 42, total_copied = 0\<rparr>)
   = Inr (3, [([''out'', ''train'', ''Invalid''], Dir),
              ([''out'', ''train'', ''Invalid'', ''a.jpg''], File ''call''),
              ([''out'', ''train'', ''Invalid'', ''a_83810.jpg''], File ''rock'')])"
  by code_simp

end
